theory Spec2Isabelle
  imports Complex_Main "HOL-Library.Stream" "HOL-Library.Word"
begin

section \<open>Python values\<close>

text \<open>
  The arguments of \<open>GlobalState\<close>'s methods are dynamically typed. \<open>pyval\<close> is the part of
  Python's value universe that the methods inspect: \<open>None\<close>, \<open>bool\<close>, \<open>int\<close>, \<open>long\<close>,
  \<open>float\<close>, \<open>str\<close>, \<open>dict\<close> (an association list, in insertion order) and \<open>PyObj\<close> for
  an object of any other class. The source is Python 2, which has two integer types: an
  \<open>int\<close> is a machine integer (a C long, 64 bits here, so \<open>sys.maxint\<close> is \<open>2 ** 63 - 1\<close>),
  and a \<open>long\<close> is unbounded; an integer outside the machine range, and a literal such as
  \<open>5L\<close>, is a \<open>long\<close>. No arithmetic is done on a float, so its payload is only carried
  along.
\<close>

datatype pyval =
    PyNone
  | PyBool bool
  | PyInt "64 word"
  | PyLong int
  | PyFloat real
  | PyStr string
  | PyDict "(pyval \<times> pyval) list"
  | PyObj nat

datatype pytype = IntType | LongType | FloatType | DictType

text \<open>\<open>isinstance(v, types.T)\<close>. \<open>bool\<close> is a subclass of \<open>int\<close>; \<open>long\<close> is not, and a
  \<open>long\<close> is not an instance of \<open>types.IntType\<close>.\<close>

fun isinstance :: "pyval \<Rightarrow> pytype \<Rightarrow> bool" where
  "isinstance (PyBool b) IntType = True"
| "isinstance (PyInt i) IntType = True"
| "isinstance (PyLong i) LongType = True"
| "isinstance (PyFloat x) FloatType = True"
| "isinstance (PyDict d) DictType = True"
| "isinstance v t = False"

text \<open>The truth value that \<open>if v:\<close> tests.\<close>

fun truthy :: "pyval \<Rightarrow> bool" where
  "truthy PyNone = False"
| "truthy (PyBool b) = b"
| "truthy (PyInt i) = (i \<noteq> 0)"
| "truthy (PyLong i) = (i \<noteq> 0)"
| "truthy (PyFloat x) = (x \<noteq> 0)"
| "truthy (PyStr s) = (s \<noteq> [])"
| "truthy (PyDict d) = (d \<noteq> [])"
| "truthy (PyObj n) = True"

text \<open>
  What a call can end with instead of a value: an exception, or \<open>Blocked\<close>, which stands for
  \<open>acquire()\<close> on a lock that is held: with no other thread to release it, the call does not
  return.
\<close>

datatype error =
    AssertionError
  | AttributeError
  | Empty
  | Raised pyval
  | Blocked

section \<open>Collaborators\<close>

text \<open>
  The modules \<open>constants\<close> and \<open>utilities\<close> are imported by \<open>global_state.py\<close> and are
  parameters here: the four constants, and the predicate \<open>utilities.valid_string\<close>.
\<close>

record env =
  MAX_CACHED_DATA_AGE_SECONDS :: int
  CACHE_DATA_CLEANUP_AGE_SECONDS :: int
  MAX_CONCURRENT_COMPUTE_GRAPH :: int
  MAX_ELAPSED_QUEUE_SIZE :: int
  valid_string :: "pyval \<Rightarrow> bool"

text \<open>\<open>simple_cache.SimpleCache(max_age, cleanup_age)\<close> and \<open>threading.BoundedSemaphore(n)\<close>,
  as constructed.\<close>

datatype SimpleCache = SimpleCache int int

datatype BoundedSemaphore = BoundedSemaphore int

text \<open>
  The injected logging sink. \<open>raises lvl args\<close> is the exception that the sink's method
  \<open>lvl\<close> raises when called with \<open>args\<close>, if any; \<open>calls\<close> lists the calls the sink has
  received, the latest last.
\<close>

datatype level = Debug | Info | Warning | Error | Fatal | Exception

record logger =
  raises :: "level \<Rightarrow> pyval list \<Rightarrow> pyval option"
  calls :: "(level \<times> pyval list) list"

text \<open>\<open>random.Random.randint(a, b)\<close>: the generator is the stream of its raw draws, and
  \<open>randint\<close> reduces the next one to \<open>a \<le> N \<le> b\<close>.\<close>

definition randint :: "int \<Rightarrow> int \<Rightarrow> int stream \<Rightarrow> int \<times> int stream" where
  "randint a b g = (a + shd g mod (b - a + 1), stl g)"

section \<open>The elapsed time queue\<close>

record ElapsedRecord =
  start_time :: pyval
  what :: pyval
  thread_identifier :: int
  elapsed_seconds :: pyval

text \<open>\<open>Queue.Queue()\<close>, unbounded and FIFO: the oldest item is the head of the list.\<close>

definition qsize :: "'a list \<Rightarrow> int" where
  "qsize q = int (length q)"

definition queue_empty :: "'a list \<Rightarrow> bool" where
  "queue_empty q = (q = [])"

fun get_nowait :: "'a list \<Rightarrow> error + ('a \<times> 'a list)" where
  "get_nowait [] = Inl Empty"
| "get_nowait (x # q) = Inr (x, q)"

definition put :: "'a \<Rightarrow> 'a list \<Rightarrow> 'a list" where
  "put x q = q @ [x]"

section \<open>GlobalState\<close>

record GlobalState =
  testing :: pyval
  num_workers :: pyval
  logger_lock :: bool
  logger :: "logger option"
  random_lock :: bool
  random_generator :: "int stream"
  sequence_number :: int
  nodes_cache :: "SimpleCache option"
  pods_cache :: "SimpleCache option"
  services_cache :: "SimpleCache option"
  rcontrollers_cache :: "SimpleCache option"
  bounded_semaphore :: "BoundedSemaphore option"
  elapsed_queue :: "ElapsedRecord list"
  relations_lock :: bool
  relations_to_timestamps :: pyval

text \<open>A call returns a value or ends with an \<open>error\<close>, and leaves a state behind.\<close>

type_synonym 'a outcome = "(error + 'a) \<times> GlobalState"

text \<open>\<open>__init__\<close>. The generator is seeded from the system time, so its draws are a
  parameter. A field that holds \<open>None\<close> in Python is \<open>None\<close> here.\<close>

definition GlobalState_init :: "int stream \<Rightarrow> GlobalState" where
  "GlobalState_init g =
     \<lparr> testing = PyBool False,
       num_workers = PyInt 0,
       logger_lock = False,
       logger = None,
       random_lock = False,
       random_generator = g,
       sequence_number = 0,
       nodes_cache = None,
       pods_cache = None,
       services_cache = None,
       rcontrollers_cache = None,
       bounded_semaphore = None,
       elapsed_queue = [],
       relations_lock = False,
       relations_to_timestamps = PyDict [] \<rparr>"

text \<open>\<open>with lock: body\<close>: the lock is acquired, the body runs, and the lock is released
  whether the body returns or raises.\<close>

definition with_lock ::
  "(GlobalState \<Rightarrow> bool) \<Rightarrow> ((bool \<Rightarrow> bool) \<Rightarrow> GlobalState \<Rightarrow> GlobalState) \<Rightarrow>
   (GlobalState \<Rightarrow> 'a outcome) \<Rightarrow> GlobalState \<Rightarrow> 'a outcome" where
  "with_lock held upd body s =
     (if held s then (Inl Blocked, s)
      else (case body (upd (\<lambda>_. True) s) of (r, s') \<Rightarrow> (r, upd (\<lambda>_. False) s')))"

definition init_caches_and_synchronization :: "env \<Rightarrow> GlobalState \<Rightarrow> unit outcome" where
  "init_caches_and_synchronization c s =
     (Inr (),
      s\<lparr> nodes_cache := Some (SimpleCache (MAX_CACHED_DATA_AGE_SECONDS c)
                                           (CACHE_DATA_CLEANUP_AGE_SECONDS c)),
         pods_cache := Some (SimpleCache (MAX_CACHED_DATA_AGE_SECONDS c)
                                          (CACHE_DATA_CLEANUP_AGE_SECONDS c)),
         services_cache := Some (SimpleCache (MAX_CACHED_DATA_AGE_SECONDS c)
                                              (CACHE_DATA_CLEANUP_AGE_SECONDS c)),
         rcontrollers_cache := Some (SimpleCache (MAX_CACHED_DATA_AGE_SECONDS c)
                                                  (CACHE_DATA_CLEANUP_AGE_SECONDS c)),
         bounded_semaphore := Some (BoundedSemaphore (MAX_CONCURRENT_COMPUTE_GRAPH c)) \<rparr>)"

definition get_nodes_cache :: "GlobalState \<Rightarrow> SimpleCache option outcome" where
  "get_nodes_cache s = (Inr (nodes_cache s), s)"

definition get_pods_cache :: "GlobalState \<Rightarrow> SimpleCache option outcome" where
  "get_pods_cache s = (Inr (pods_cache s), s)"

definition get_services_cache :: "GlobalState \<Rightarrow> SimpleCache option outcome" where
  "get_services_cache s = (Inr (services_cache s), s)"

definition get_rcontrollers_cache :: "GlobalState \<Rightarrow> SimpleCache option outcome" where
  "get_rcontrollers_cache s = (Inr (rcontrollers_cache s), s)"

definition get_bounded_semaphore :: "GlobalState \<Rightarrow> BoundedSemaphore option outcome" where
  "get_bounded_semaphore s = (Inr (bounded_semaphore s), s)"

definition set_testing :: "pyval \<Rightarrow> GlobalState \<Rightarrow> unit outcome" where
  "set_testing t s = (Inr (), s\<lparr>testing := t\<rparr>)"

definition get_testing :: "GlobalState \<Rightarrow> pyval outcome" where
  "get_testing s = (Inr (testing s), s)"

definition set_num_workers :: "pyval \<Rightarrow> GlobalState \<Rightarrow> unit outcome" where
  "set_num_workers workers s =
     (if \<not> isinstance workers IntType then (Inl AssertionError, s)
      else (Inr (), s\<lparr>num_workers := workers\<rparr>))"

definition get_num_workers :: "GlobalState \<Rightarrow> pyval outcome" where
  "get_num_workers s = (Inr (num_workers s), s)"

definition get_random_priority :: "GlobalState \<Rightarrow> int outcome" where
  "get_random_priority =
     with_lock random_lock random_lock_update
       (\<lambda>s. if truthy (testing s)
             then (Inr (sequence_number s + 1), s\<lparr>sequence_number := sequence_number s + 1\<rparr>)
             else (case randint 0 1000 (random_generator s) of
                     (r, g) \<Rightarrow> (Inr r, s\<lparr>random_generator := g\<rparr>)))"

definition set_logger :: "logger option \<Rightarrow> GlobalState \<Rightarrow> unit outcome" where
  "set_logger lg =
     with_lock logger_lock logger_lock_update (\<lambda>s. (Inr (), s\<lparr>logger := lg\<rparr>))"

text \<open>\<open>self._logger.lvl(*args)\<close>: \<open>None\<close> has no such attribute; the sink receives the
  call and returns or raises.\<close>

definition sink_call :: "level \<Rightarrow> pyval list \<Rightarrow> GlobalState \<Rightarrow> unit outcome" where
  "sink_call lvl args s =
     (case logger s of
        None \<Rightarrow> (Inl AttributeError, s)
      | Some lg \<Rightarrow>
          (case raises lg lvl args of
             Some e \<Rightarrow> Inl (Raised e)
           | None \<Rightarrow> Inr (),
           s\<lparr>logger := Some (lg\<lparr>calls := calls lg @ [(lvl, args)]\<rparr>)\<rparr>))"

definition logger_debug :: "pyval list \<Rightarrow> GlobalState \<Rightarrow> unit outcome" where
  "logger_debug args = with_lock logger_lock logger_lock_update (sink_call Debug args)"

definition logger_info :: "pyval list \<Rightarrow> GlobalState \<Rightarrow> unit outcome" where
  "logger_info args = with_lock logger_lock logger_lock_update (sink_call Info args)"

definition logger_warning :: "pyval list \<Rightarrow> GlobalState \<Rightarrow> unit outcome" where
  "logger_warning args = with_lock logger_lock logger_lock_update (sink_call Warning args)"

definition logger_error :: "pyval list \<Rightarrow> GlobalState \<Rightarrow> unit outcome" where
  "logger_error args = with_lock logger_lock logger_lock_update (sink_call Error args)"

definition logger_fatal :: "pyval list \<Rightarrow> GlobalState \<Rightarrow> unit outcome" where
  "logger_fatal args = with_lock logger_lock logger_lock_update (sink_call Fatal args)"

definition logger_exception :: "pyval list \<Rightarrow> GlobalState \<Rightarrow> unit outcome" where
  "logger_exception args = with_lock logger_lock logger_lock_update (sink_call Exception args)"

definition get_relations_to_timestamps :: "GlobalState \<Rightarrow> pyval outcome" where
  "get_relations_to_timestamps =
     with_lock relations_lock relations_lock_update
       (\<lambda>s. (Inr (relations_to_timestamps s), s))"

definition set_relations_to_timestamps :: "pyval \<Rightarrow> GlobalState \<Rightarrow> unit outcome" where
  "set_relations_to_timestamps v s =
     (if \<not> isinstance v DictType then (Inl AssertionError, s)
      else with_lock relations_lock relations_lock_update
             (\<lambda>s. (Inr (), s\<lparr>relations_to_timestamps := v\<rparr>)) s)"

text \<open>The loop of \<open>add_elapsed\<close>: while the queue holds \<open>MAX_ELAPSED_QUEUE_SIZE\<close> items or
  more, take the oldest out; stop when \<open>get\<close> raises \<open>Empty\<close>.\<close>

function discard_oldest :: "int \<Rightarrow> 'a list \<Rightarrow> 'a list" where
  "discard_oldest m q =
     (if qsize q \<ge> m
      then (case get_nowait q of
              Inl e \<Rightarrow> q
            | Inr (x, q') \<Rightarrow> discard_oldest m q')
      else q)"
  by pat_completeness auto
termination
proof (relation "measure (\<lambda>(m, q). length q)")
  show "wf (measure (\<lambda>(m, q). length q))" by simp
next
  fix m :: int and q :: "'a list" and x2 x y
  assume "get_nowait q = Inr x2" and "(x, y) = x2"
  then show "((m, y), (m, q)) \<in> measure (\<lambda>(m, q). length q)"
    by (cases q) auto
qed

text \<open>\<open>tid\<close> is \<open>thread.get_ident()\<close>, the identifier of the calling thread.\<close>

definition add_elapsed ::
  "env \<Rightarrow> int \<Rightarrow> pyval \<Rightarrow> pyval \<Rightarrow> pyval \<Rightarrow> GlobalState \<Rightarrow> unit outcome" where
  "add_elapsed c tid st url_or_fname secs s =
     (if \<not> isinstance st FloatType then (Inl AssertionError, s)
      else if \<not> valid_string c url_or_fname then (Inl AssertionError, s)
      else if \<not> isinstance secs FloatType then (Inl AssertionError, s)
      else (Inr (),
            s\<lparr>elapsed_queue :=
                put \<lparr>start_time = st, what = url_or_fname,
                     thread_identifier = tid, elapsed_seconds = secs\<rparr>
                    (discard_oldest (MAX_ELAPSED_QUEUE_SIZE c) (elapsed_queue s))\<rparr>))"

text \<open>The loop of \<open>get_elapsed\<close>: \<open>result\<close> grows at its end while the queue is not
  empty.\<close>

function drain :: "'a list \<Rightarrow> 'a list \<Rightarrow> 'a list \<times> 'a list" where
  "drain result q =
     (if \<not> queue_empty q
      then (case get_nowait q of
              Inl e \<Rightarrow> (result, q)
            | Inr (x, q') \<Rightarrow> drain (result @ [x]) q')
      else (result, q))"
  by pat_completeness auto
termination
proof (relation "measure (\<lambda>(result, q). length q)")
  show "wf (measure (\<lambda>(result, q). length q))" by simp
next
  fix result q :: "'a list" and x2 x y
  assume "get_nowait q = Inr x2" and "(x, y) = x2"
  then show "((result @ [x], y), (result, q)) \<in> measure (\<lambda>(result, q). length q)"
    by (cases q) auto
qed

definition get_elapsed :: "GlobalState \<Rightarrow> ElapsedRecord list outcome" where
  "get_elapsed s =
     (case drain [] (elapsed_queue s) of
        (result, q) \<Rightarrow> (Inr result, s\<lparr>elapsed_queue := q\<rparr>))"

section \<open>Sequences of calls\<close>

text \<open>\<open>get_random_priority()\<close> called \<open>n\<close> times in a row: the outcomes, in call order.\<close>

fun call_n :: "nat \<Rightarrow> GlobalState \<Rightarrow> (error + int) list \<times> GlobalState" where
  "call_n 0 s = ([], s)"
| "call_n (Suc n) s =
     (case get_random_priority s of
        (r, s') \<Rightarrow> (case call_n n s' of (rs, s'') \<Rightarrow> (r # rs, s'')))"

text \<open>One \<open>add_elapsed\<close> call: the calling thread and the three arguments.\<close>

type_synonym add_call = "int \<times> pyval \<times> pyval \<times> pyval"

fun valid_args :: "env \<Rightarrow> add_call \<Rightarrow> bool" where
  "valid_args c (tid, st, url_or_fname, secs) =
     (isinstance st FloatType \<and> valid_string c url_or_fname \<and> isinstance secs FloatType)"

fun record_of :: "add_call \<Rightarrow> ElapsedRecord" where
  "record_of (tid, st, url_or_fname, secs) =
     \<lparr>start_time = st, what = url_or_fname, thread_identifier = tid, elapsed_seconds = secs\<rparr>"

text \<open>The calls one after the other; an exception ends the sequence.\<close>

fun add_elapsed_all :: "env \<Rightarrow> add_call list \<Rightarrow> GlobalState \<Rightarrow> unit outcome" where
  "add_elapsed_all c [] s = (Inr (), s)"
| "add_elapsed_all c ((tid, st, url_or_fname, secs) # rest) s =
     (case add_elapsed c tid st url_or_fname secs s of
        (Inl e, s') \<Rightarrow> (Inl e, s')
      | (Inr u, s') \<Rightarrow> add_elapsed_all c rest s')"

text \<open>The last \<open>n\<close> items of a list, in their order.\<close>

definition most_recent :: "nat \<Rightarrow> 'a list \<Rightarrow> 'a list" where
  "most_recent n xs = drop (length xs - n) xs"

text \<open>The six logging operations, by level.\<close>

fun facade :: "level \<Rightarrow> pyval list \<Rightarrow> GlobalState \<Rightarrow> unit outcome" where
  "facade Debug = logger_debug"
| "facade Info = logger_info"
| "facade Warning = logger_warning"
| "facade Error = logger_error"
| "facade Fatal = logger_fatal"
| "facade Exception = logger_exception"

text \<open>The public operations of a \<open>GlobalState\<close>, and the state each leaves behind. A caller
  may catch an exception and go on, so a run continues after one.\<close>

datatype op =
    InitCachesAndSynchronization
  | GetNodesCache
  | GetPodsCache
  | GetServicesCache
  | GetRcontrollersCache
  | GetBoundedSemaphore
  | SetTesting pyval
  | GetTesting
  | SetNumWorkers pyval
  | GetNumWorkers
  | GetRandomPriority
  | SetLogger "logger option"
  | LoggerCall level "pyval list"
  | GetRelationsToTimestamps
  | SetRelationsToTimestamps pyval
  | AddElapsed int pyval pyval pyval
  | GetElapsed

fun step :: "env \<Rightarrow> op \<Rightarrow> GlobalState \<Rightarrow> GlobalState" where
  "step c InitCachesAndSynchronization s = snd (init_caches_and_synchronization c s)"
| "step c GetNodesCache s = snd (get_nodes_cache s)"
| "step c GetPodsCache s = snd (get_pods_cache s)"
| "step c GetServicesCache s = snd (get_services_cache s)"
| "step c GetRcontrollersCache s = snd (get_rcontrollers_cache s)"
| "step c GetBoundedSemaphore s = snd (get_bounded_semaphore s)"
| "step c (SetTesting t) s = snd (set_testing t s)"
| "step c GetTesting s = snd (get_testing s)"
| "step c (SetNumWorkers w) s = snd (set_num_workers w s)"
| "step c GetNumWorkers s = snd (get_num_workers s)"
| "step c GetRandomPriority s = snd (get_random_priority s)"
| "step c (SetLogger lg) s = snd (set_logger lg s)"
| "step c (LoggerCall lvl args) s = snd (facade lvl args s)"
| "step c GetRelationsToTimestamps s = snd (get_relations_to_timestamps s)"
| "step c (SetRelationsToTimestamps v) s = snd (set_relations_to_timestamps v s)"
| "step c (AddElapsed tid st url_or_fname secs) s = snd (add_elapsed c tid st url_or_fname secs s)"
| "step c GetElapsed s = snd (get_elapsed s)"

fun run :: "env \<Rightarrow> op list \<Rightarrow> GlobalState \<Rightarrow> GlobalState" where
  "run c [] s = s"
| "run c (x # xs) s = run c xs (step c x s)"

fun is_set_testing :: "op \<Rightarrow> bool" where
  "is_set_testing (SetTesting t) = True"
| "is_set_testing x = False"

text \<open>An environment for concrete runs: a queue capacity of 2, and a \<open>valid_string\<close> that
  accepts the non-empty strings.\<close>

fun nonempty_str :: "pyval \<Rightarrow> bool" where
  "nonempty_str (PyStr s) = (s \<noteq> [])"
| "nonempty_str v = False"

definition test_env :: env where
  "test_env =
     \<lparr> MAX_CACHED_DATA_AGE_SECONDS = 10,
       CACHE_DATA_CLEANUP_AGE_SECONDS = 3600,
       MAX_CONCURRENT_COMPUTE_GRAPH = 10,
       MAX_ELAPSED_QUEUE_SIZE = 2,
       valid_string = nonempty_str \<rparr>"

text \<open>A logging sink whose every method raises, and one that never does.\<close>

definition failing_sink :: logger where
  "failing_sink = \<lparr> raises = (\<lambda>lvl args. Some (PyStr ''sink failed'')), calls = [] \<rparr>"

definition quiet_sink :: logger where
  "quiet_sink = \<lparr> raises = (\<lambda>lvl args. None), calls = [] \<rparr>"

text \<open>No cache and no semaphore has been allocated.\<close>

definition uninitialized :: "GlobalState \<Rightarrow> bool" where
  "uninitialized s =
     (nodes_cache s = None \<and> pods_cache s = None \<and> services_cache s = None \<and>
      rcontrollers_cache s = None \<and> bounded_semaphore s = None)"

section \<open>Auxiliary facts\<close>

declare discard_oldest.simps [simp del] drain.simps [simp del]

lemma facade_with_lock:
  "facade lvl args = with_lock logger_lock logger_lock_update (sink_call lvl args)"
  by (cases lvl) (simp_all add: logger_debug_def logger_info_def logger_warning_def
      logger_error_def logger_fatal_def logger_exception_def)

lemma with_lock_frame:
  assumes "\<And>f t. P (upd f t) = P t" and "\<And>t. P (snd (body t)) = P t"
  shows "P (snd (with_lock held upd body s)) = P s"
proof (cases "held s")
  case True
  then show ?thesis by (simp add: with_lock_def)
next
  case False
  obtain r s' where b: "body (upd (\<lambda>_. True) s) = (r, s')"
    by (cases "body (upd (\<lambda>_. True) s)")
  have "P s' = P (upd (\<lambda>_. True) s)"
    using assms(2) [of "upd (\<lambda>_. True) s"] b by simp
  with False b assms(1) show ?thesis by (simp add: with_lock_def)
qed

subsection \<open>What a step leaves alone\<close>

lemma sink_call_testing: "testing (snd (sink_call lvl args s)) = testing s"
  by (simp add: sink_call_def split: option.splits)

lemma step_testing: "\<not> is_set_testing x \<Longrightarrow> testing (step c x s) = testing s"
proof (cases x)
  case (LoggerCall lvl args)
  show ?thesis unfolding LoggerCall step.simps facade_with_lock
    by (rule with_lock_frame) (simp_all add: sink_call_testing)
qed (simp_all add: init_caches_and_synchronization_def get_nodes_cache_def get_pods_cache_def
      get_services_cache_def get_rcontrollers_cache_def get_bounded_semaphore_def
      get_testing_def set_num_workers_def get_num_workers_def get_random_priority_def
      set_logger_def get_relations_to_timestamps_def set_relations_to_timestamps_def
      add_elapsed_def get_elapsed_def with_lock_def split: prod.splits)

lemma step_uninitialized:
  "InitCachesAndSynchronization \<noteq> x \<Longrightarrow> uninitialized (step c x s) = uninitialized s"
proof (cases x)
  case (LoggerCall lvl args)
  show ?thesis unfolding LoggerCall step.simps facade_with_lock
    by (simp add: with_lock_def sink_call_def uninitialized_def split: option.splits prod.splits)
qed (simp_all add: uninitialized_def get_nodes_cache_def get_pods_cache_def
      get_services_cache_def get_rcontrollers_cache_def get_bounded_semaphore_def set_testing_def
      get_testing_def set_num_workers_def get_num_workers_def get_random_priority_def
      set_logger_def get_relations_to_timestamps_def set_relations_to_timestamps_def
      add_elapsed_def get_elapsed_def with_lock_def split: prod.splits)

lemma run_uninitialized:
  "InitCachesAndSynchronization \<notin> set ops \<Longrightarrow> uninitialized (run c ops s) = uninitialized s"
  by (induction ops arbitrary: s) (simp_all add: step_uninitialized)

subsection \<open>The sequence counter\<close>

lemma get_random_priority_testing:
  "truthy (testing s) \<Longrightarrow> \<not> random_lock s \<Longrightarrow>
   get_random_priority s =
     (Inr (sequence_number s + 1), s\<lparr>sequence_number := sequence_number s + 1\<rparr>)"
  by (simp add: get_random_priority_def with_lock_def)

lemma call_n_testing:
  "truthy (testing s) \<Longrightarrow> \<not> random_lock s \<Longrightarrow>
   fst (call_n n s) = map Inr [sequence_number s + 1 .. sequence_number s + int n]"
proof (induction n arbitrary: s)
  case 0
  then show ?case by simp
next
  case (Suc n)
  let ?s' = "s\<lparr>sequence_number := sequence_number s + 1\<rparr>"
  have "fst (call_n n ?s') = map Inr [sequence_number ?s' + 1 .. sequence_number ?s' + int n]"
    using Suc.prems by (intro Suc.IH) simp_all
  moreover have "[sequence_number s + 1 .. sequence_number s + int (Suc n)]
     = (sequence_number s + 1) # [sequence_number s + 1 + 1 .. sequence_number s + 1 + int n]"
    by (subst upto_rec1) (simp_all add: add.commute add.left_commute)
  ultimately show ?case using Suc.prems
    by (simp add: get_random_priority_testing case_prod_unfold)
qed

subsection \<open>The queue\<close>

lemma discard_oldest_most_recent:
  "1 \<le> m \<Longrightarrow> discard_oldest m q = most_recent (nat m - 1) q"
proof (induction m q rule: discard_oldest.induct)
  case (1 m q)
  show ?case
  proof (cases q)
    case Nil
    then show ?thesis
      by (subst discard_oldest.simps) (simp add: most_recent_def qsize_def)
  next
    case (Cons x q')
    show ?thesis
    proof (cases "qsize q \<ge> m")
      case True
      have ih: "discard_oldest m q' = most_recent (nat m - 1) q'"
        using "1.IH" [of "(x, q')" x q'] True Cons "1.prems" by simp
      have "length q' - (nat m - 1) = length q - (nat m - 1) - 1"
        using Cons by simp
      moreover have "length q - (nat m - 1) > 0"
        using True "1.prems" Cons by (simp add: qsize_def)
      ultimately have "most_recent (nat m - 1) q = most_recent (nat m - 1) q'"
        using Cons by (simp add: most_recent_def drop_Cons')
      with ih True Cons show ?thesis
        by (subst discard_oldest.simps) simp
    next
      case False
      then have "length q \<le> nat m - 1" by (simp add: qsize_def)
      with False show ?thesis
        by (subst discard_oldest.simps) (simp add: most_recent_def)
    qed
  qed
qed

lemma put_most_recent:
  "0 < n \<Longrightarrow> put r (most_recent (n - 1) q) = most_recent n (q @ [r])"
  by (simp add: put_def most_recent_def Suc_diff_le)

lemma most_recent_absorb:
  "most_recent n (most_recent n xs @ ys) = most_recent n (xs @ ys)"
proof (cases "length xs \<le> n")
  case True
  then show ?thesis by (simp add: most_recent_def)
next
  case False
  then have "length xs - (length xs - n) = n" by simp
  then show ?thesis using False
    by (cases "length ys \<le> n") (simp_all add: most_recent_def add.commute)
qed

lemma length_most_recent: "length (most_recent n xs) \<le> n"
  by (simp add: most_recent_def)

lemma add_elapsed_queue:
  assumes "0 < MAX_ELAPSED_QUEUE_SIZE c" and "valid_args c (tid, st, u, secs)"
  shows "add_elapsed c tid st u secs s =
    (Inr (), s\<lparr>elapsed_queue :=
       most_recent (nat (MAX_ELAPSED_QUEUE_SIZE c))
         (elapsed_queue s @ [record_of (tid, st, u, secs)])\<rparr>)"
proof -
  have "discard_oldest (MAX_ELAPSED_QUEUE_SIZE c) (elapsed_queue s)
      = most_recent (nat (MAX_ELAPSED_QUEUE_SIZE c) - 1) (elapsed_queue s)"
    using assms(1) by (intro discard_oldest_most_recent) simp
  moreover have "0 < nat (MAX_ELAPSED_QUEUE_SIZE c)" using assms(1) by simp
  ultimately have "put (record_of (tid, st, u, secs))
        (discard_oldest (MAX_ELAPSED_QUEUE_SIZE c) (elapsed_queue s))
      = most_recent (nat (MAX_ELAPSED_QUEUE_SIZE c))
          (elapsed_queue s @ [record_of (tid, st, u, secs)])"
    by (simp only: put_most_recent)
  then show ?thesis using assms(2)
    by (simp add: add_elapsed_def)
qed

lemma add_elapsed_all_queue:
  assumes "0 < MAX_ELAPSED_QUEUE_SIZE c"
  shows "valid_args c a0 \<Longrightarrow> list_all (valid_args c) cs \<Longrightarrow>
     add_elapsed_all c (a0 # cs) s =
       (Inr (), s\<lparr>elapsed_queue :=
          most_recent (nat (MAX_ELAPSED_QUEUE_SIZE c))
            (elapsed_queue s @ map record_of (a0 # cs))\<rparr>)"
proof (induction cs arbitrary: a0 s)
  case Nil
  obtain tid st u secs where a0: "a0 = (tid, st, u, secs)" by (cases a0)
  show ?case using Nil assms unfolding a0
    by (simp add: add_elapsed_queue del: valid_args.simps record_of.simps)
next
  case (Cons a cs)
  obtain tid st u secs where a0: "a0 = (tid, st, u, secs)" by (cases a0)
  let ?s1 = "s\<lparr>elapsed_queue :=
       most_recent (nat (MAX_ELAPSED_QUEUE_SIZE c)) (elapsed_queue s @ [record_of a0])\<rparr>"
  have "valid_args c (tid, st, u, secs)" using Cons.prems(1) a0 by simp
  with assms have "add_elapsed c tid st u secs s =
      (Inr (), s\<lparr>elapsed_queue := most_recent (nat (MAX_ELAPSED_QUEUE_SIZE c))
         (elapsed_queue s @ [record_of (tid, st, u, secs)])\<rparr>)"
    by (rule add_elapsed_queue)
  then have step1: "add_elapsed_all c (a0 # a # cs) s = add_elapsed_all c (a # cs) ?s1"
    by (simp add: a0)
  have "add_elapsed_all c (a # cs) ?s1 =
       (Inr (), ?s1\<lparr>elapsed_queue :=
          most_recent (nat (MAX_ELAPSED_QUEUE_SIZE c))
            (elapsed_queue ?s1 @ map record_of (a # cs))\<rparr>)"
    using Cons.prems by (intro Cons.IH) simp_all
  also have "\<dots> = (Inr (), s\<lparr>elapsed_queue :=
          most_recent (nat (MAX_ELAPSED_QUEUE_SIZE c))
            (elapsed_queue s @ map record_of (a0 # a # cs))\<rparr>)"
    by (simp add: most_recent_absorb del: record_of.simps)
  finally show ?case using step1 by simp
qed

lemma drain_all: "drain result q = (result @ q, [])"
proof (induction result q rule: drain.induct)
  case (1 result q)
  show ?case
  proof (cases q)
    case Nil
    then show ?thesis
      by (subst drain.simps) (simp add: queue_empty_def)
  next
    case (Cons x q')
    then have "drain (result @ [x]) q' = ((result @ [x]) @ q', [])"
      using "1.IH" [of "(x, q')" x q'] by (simp add: queue_empty_def)
    with Cons show ?thesis
      by (subst drain.simps) (simp add: queue_empty_def)
  qed
qed

lemma get_elapsed_all:
  "get_elapsed s = (Inr (elapsed_queue s), s\<lparr>elapsed_queue := []\<rparr>)"
  by (simp add: get_elapsed_def drain_all)

lemma add_elapsed_all_from_empty:
  assumes "0 < MAX_ELAPSED_QUEUE_SIZE c" and "list_all (valid_args c) cs"
    and "elapsed_queue s = []"
  shows "elapsed_queue (snd (add_elapsed_all c cs s)) =
     most_recent (nat (MAX_ELAPSED_QUEUE_SIZE c)) (map record_of cs)"
proof (cases cs)
  case Nil
  then show ?thesis using assms(3) by (simp add: most_recent_def)
next
  case (Cons a0 rest)
  then show ?thesis
    using add_elapsed_all_queue [OF assms(1), of a0 rest s] assms(2,3) by simp
qed

section \<open>Initialization\<close>

text \<open>
  C1, as the source has it. The five accessors (\<open>get_nodes_cache\<close>, \<open>get_pods_cache\<close>,
  \<open>get_services_cache\<close>, \<open>get_rcontrollers_cache\<close>, \<open>get_bounded_semaphore\<close>) have no check:
  on a new \<open>GlobalState\<close> each one returns \<open>None\<close> normally instead of failing.
\<close>

theorem accessors_return_None_on_new_state:
  "fst (get_nodes_cache (GlobalState_init (sconst 0))) = Inr None \<and>
   fst (get_pods_cache (GlobalState_init (sconst 0))) = Inr None \<and>
   fst (get_services_cache (GlobalState_init (sconst 0))) = Inr None \<and>
   fst (get_rcontrollers_cache (GlobalState_init (sconst 0))) = Inr None \<and>
   fst (get_bounded_semaphore (GlobalState_init (sconst 0))) = Inr None"
  by (simp add: GlobalState_init_def get_nodes_cache_def get_pods_cache_def
      get_services_cache_def get_rcontrollers_cache_def get_bounded_semaphore_def)

text \<open>
  C1, amended. After any operations on a new \<open>GlobalState\<close> among which
  \<open>init_caches_and_synchronization\<close> does not occur, each of the five accessors returns
  \<open>None\<close> without an exception and leaves the state as it is.
\<close>

theorem accessors_before_init:
  assumes "InitCachesAndSynchronization \<notin> set ops"
    and "s = run c ops (GlobalState_init g)"
  shows "get_nodes_cache s = (Inr None, s) \<and>
         get_pods_cache s = (Inr None, s) \<and>
         get_services_cache s = (Inr None, s) \<and>
         get_rcontrollers_cache s = (Inr None, s) \<and>
         get_bounded_semaphore s = (Inr None, s)"
proof -
  have "uninitialized (GlobalState_init g)"
    by (simp add: uninitialized_def GlobalState_init_def)
  with assms have "uninitialized s"
    by (simp add: run_uninitialized)
  then show ?thesis
    by (simp add: uninitialized_def get_nodes_cache_def get_pods_cache_def
        get_services_cache_def get_rcontrollers_cache_def get_bounded_semaphore_def)
qed

theorem accessors_before_init_witness:
  "InitCachesAndSynchronization \<notin> set [SetTesting (PyBool True), GetRandomPriority, GetElapsed] \<and>
   fst (get_nodes_cache (run test_env [SetTesting (PyBool True), GetRandomPriority, GetElapsed]
          (GlobalState_init (sconst 0)))) = Inr None \<and>
   fst (get_bounded_semaphore (run test_env [SetTesting (PyBool True), GetRandomPriority, GetElapsed]
          (GlobalState_init (sconst 0)))) = Inr None"
  using accessors_before_init
    [of "[SetTesting (PyBool True), GetRandomPriority, GetElapsed]"
        "run test_env [SetTesting (PyBool True), GetRandomPriority, GetElapsed]
           (GlobalState_init (sconst 0))"
        test_env "sconst 0"]
  by simp

section \<open>The elapsed time queue\<close>

text \<open>
  C2. With a positive \<open>MAX_ELAPSED_QUEUE_SIZE\<close>, after one or more \<open>add_elapsed\<close> calls with
  valid arguments every call has succeeded, the queue is at most \<open>MAX_ELAPSED_QUEUE_SIZE\<close>
  long, and it holds the most recent \<open>MAX_ELAPSED_QUEUE_SIZE\<close> of the records that were in
  it or have been added, oldest first: the oldest ones are the ones discarded.
\<close>

theorem add_elapsed_keeps_most_recent:
  assumes "0 < MAX_ELAPSED_QUEUE_SIZE c"
    and "cs \<noteq> []"
    and "list_all (valid_args c) cs"
  shows "fst (add_elapsed_all c cs s) = Inr () \<and>
         qsize (elapsed_queue (snd (add_elapsed_all c cs s))) \<le> MAX_ELAPSED_QUEUE_SIZE c \<and>
         elapsed_queue (snd (add_elapsed_all c cs s)) =
           most_recent (nat (MAX_ELAPSED_QUEUE_SIZE c)) (elapsed_queue s @ map record_of cs)"
proof -
  obtain a0 rest where cs: "cs = a0 # rest"
    using assms(2) by (cases cs) auto
  have run: "add_elapsed_all c cs s =
      (Inr (), s\<lparr>elapsed_queue := most_recent (nat (MAX_ELAPSED_QUEUE_SIZE c))
         (elapsed_queue s @ map record_of cs)\<rparr>)"
    unfolding cs using assms(3) cs by (intro add_elapsed_all_queue [OF assms(1)]) simp_all
  have "length (most_recent (nat (MAX_ELAPSED_QUEUE_SIZE c)) (elapsed_queue s @ map record_of cs))
      \<le> nat (MAX_ELAPSED_QUEUE_SIZE c)"
    by (rule length_most_recent)
  then have "qsize (most_recent (nat (MAX_ELAPSED_QUEUE_SIZE c))
      (elapsed_queue s @ map record_of cs)) \<le> MAX_ELAPSED_QUEUE_SIZE c"
    using assms(1) by (simp add: qsize_def)
  with run show ?thesis by simp
qed

theorem add_elapsed_keeps_most_recent_witness:
  "0 < MAX_ELAPSED_QUEUE_SIZE test_env \<and>
   list_all (valid_args test_env)
     [(1, PyFloat 10, PyStr ''a'', PyFloat 1), (2, PyFloat 11, PyStr ''b'', PyFloat 2),
      (1, PyFloat 12, PyStr ''c'', PyFloat 3)] \<and>
   elapsed_queue (snd (add_elapsed_all test_env
     [(1, PyFloat 10, PyStr ''a'', PyFloat 1), (2, PyFloat 11, PyStr ''b'', PyFloat 2),
      (1, PyFloat 12, PyStr ''c'', PyFloat 3)] (GlobalState_init (sconst 0)))) =
     [\<lparr>start_time = PyFloat 11, what = PyStr ''b'', thread_identifier = 2,
        elapsed_seconds = PyFloat 2\<rparr>,
      \<lparr>start_time = PyFloat 12, what = PyStr ''c'', thread_identifier = 1,
        elapsed_seconds = PyFloat 3\<rparr>]"
  using add_elapsed_keeps_most_recent
    [of test_env "[(1, PyFloat 10, PyStr ''a'', PyFloat 1), (2, PyFloat 11, PyStr ''b'', PyFloat 2),
      (1, PyFloat 12, PyStr ''c'', PyFloat 3)]" "GlobalState_init (sconst 0)"]
  by (simp add: test_env_def GlobalState_init_def most_recent_def)

text \<open>
  C3, as the source has it. With a capacity of 2, three records added after a drain: the
  next \<open>get_elapsed\<close> returns the last two, not the three that were inserted since the drain.
\<close>

theorem get_elapsed_misses_discarded:
  "fst (get_elapsed (snd (add_elapsed_all test_env
     [(1, PyFloat 10, PyStr ''a'', PyFloat 1), (2, PyFloat 11, PyStr ''b'', PyFloat 2),
      (1, PyFloat 12, PyStr ''c'', PyFloat 3)]
     (snd (get_elapsed (GlobalState_init (sconst 0))))))) =
   Inr (map record_of [(2, PyFloat 11, PyStr ''b'', PyFloat 2),
                       (1, PyFloat 12, PyStr ''c'', PyFloat 3)]) \<and>
   fst (get_elapsed (snd (add_elapsed_all test_env
     [(1, PyFloat 10, PyStr ''a'', PyFloat 1), (2, PyFloat 11, PyStr ''b'', PyFloat 2),
      (1, PyFloat 12, PyStr ''c'', PyFloat 3)]
     (snd (get_elapsed (GlobalState_init (sconst 0))))))) \<noteq>
   Inr (map record_of [(1, PyFloat 10, PyStr ''a'', PyFloat 1),
                       (2, PyFloat 11, PyStr ''b'', PyFloat 2),
                       (1, PyFloat 12, PyStr ''c'', PyFloat 3)])"
proof -
  have "0 < MAX_ELAPSED_QUEUE_SIZE test_env"
    by (simp add: test_env_def)
  moreover have "list_all (valid_args test_env)
     [(1, PyFloat 10, PyStr ''a'', PyFloat 1), (2, PyFloat 11, PyStr ''b'', PyFloat 2),
      (1, PyFloat 12, PyStr ''c'', PyFloat 3)]"
    by (simp add: test_env_def)
  moreover have "elapsed_queue (snd (get_elapsed (GlobalState_init (sconst 0)))) = []"
    by (simp add: get_elapsed_all)
  ultimately have "elapsed_queue (snd (add_elapsed_all test_env
     [(1, PyFloat 10, PyStr ''a'', PyFloat 1), (2, PyFloat 11, PyStr ''b'', PyFloat 2),
      (1, PyFloat 12, PyStr ''c'', PyFloat 3)]
     (snd (get_elapsed (GlobalState_init (sconst 0)))))) =
     most_recent (nat (MAX_ELAPSED_QUEUE_SIZE test_env))
       (map record_of [(1, PyFloat 10, PyStr ''a'', PyFloat 1),
          (2, PyFloat 11, PyStr ''b'', PyFloat 2), (1, PyFloat 12, PyStr ''c'', PyFloat 3)])"
    by (rule add_elapsed_all_from_empty)
  then show ?thesis
    by (simp add: get_elapsed_all test_env_def most_recent_def)
qed

text \<open>
  C3, amended. \<open>get_elapsed\<close> removes and returns every record that is in the queue, oldest
  first, and the empty list when the queue is empty. With a positive
  \<open>MAX_ELAPSED_QUEUE_SIZE\<close>, what it returns after a drain and a sequence of valid
  \<open>add_elapsed\<close> calls is the most recent \<open>MAX_ELAPSED_QUEUE_SIZE\<close> of the records inserted
  since that drain, in insertion order; and a drain right after a drain returns the empty
  list.
\<close>

theorem get_elapsed_returns_retained:
  assumes "0 < MAX_ELAPSED_QUEUE_SIZE c"
    and "list_all (valid_args c) cs"
  shows "get_elapsed s = (Inr (elapsed_queue s), s\<lparr>elapsed_queue := []\<rparr>) \<and>
         fst (get_elapsed (snd (add_elapsed_all c cs (snd (get_elapsed s))))) =
           Inr (most_recent (nat (MAX_ELAPSED_QUEUE_SIZE c)) (map record_of cs)) \<and>
         fst (get_elapsed (snd (get_elapsed s))) = Inr []"
proof -
  have "elapsed_queue (snd (get_elapsed s)) = []"
    by (simp add: get_elapsed_all)
  with assms have "elapsed_queue (snd (add_elapsed_all c cs (snd (get_elapsed s)))) =
      most_recent (nat (MAX_ELAPSED_QUEUE_SIZE c)) (map record_of cs)"
    by (rule add_elapsed_all_from_empty)
  then show ?thesis
    by (simp add: get_elapsed_all)
qed

theorem get_elapsed_returns_retained_witness:
  "0 < MAX_ELAPSED_QUEUE_SIZE test_env \<and>
   list_all (valid_args test_env)
     [(1, PyFloat 10, PyStr ''a'', PyFloat 1), (2, PyFloat 11, PyStr ''b'', PyFloat 2)] \<and>
   fst (get_elapsed (snd (add_elapsed_all test_env
     [(1, PyFloat 10, PyStr ''a'', PyFloat 1), (2, PyFloat 11, PyStr ''b'', PyFloat 2)]
     (snd (get_elapsed (GlobalState_init (sconst 0))))))) =
   Inr [\<lparr>start_time = PyFloat 10, what = PyStr ''a'', thread_identifier = 1,
          elapsed_seconds = PyFloat 1\<rparr>,
        \<lparr>start_time = PyFloat 11, what = PyStr ''b'', thread_identifier = 2,
          elapsed_seconds = PyFloat 2\<rparr>] \<and>
   fst (get_elapsed (snd (get_elapsed (GlobalState_init (sconst 0))))) = Inr []"
proof -
  have h1: "0 < MAX_ELAPSED_QUEUE_SIZE test_env"
    by (simp add: test_env_def)
  have h2: "list_all (valid_args test_env)
     [(1, PyFloat 10, PyStr ''a'', PyFloat 1), (2, PyFloat 11, PyStr ''b'', PyFloat 2)]"
    by (simp add: test_env_def)
  note drained = get_elapsed_returns_retained [OF h1 h2, of "GlobalState_init (sconst 0)"]
  have "most_recent (nat (MAX_ELAPSED_QUEUE_SIZE test_env))
      (map record_of [(1, PyFloat 10, PyStr ''a'', PyFloat 1),
                      (2, PyFloat 11, PyStr ''b'', PyFloat 2)]) =
    [\<lparr>start_time = PyFloat 10, what = PyStr ''a'', thread_identifier = 1,
       elapsed_seconds = PyFloat 1\<rparr>,
     \<lparr>start_time = PyFloat 11, what = PyStr ''b'', thread_identifier = 2,
       elapsed_seconds = PyFloat 2\<rparr>]"
    by (simp add: test_env_def most_recent_def)
  with drained [THEN conjunct2, THEN conjunct1] drained [THEN conjunct2, THEN conjunct2] h1 h2
  show ?thesis by (simp only: simp_thms)
qed

section \<open>Priorities\<close>

text \<open>
  C4. In testing mode, on a \<open>GlobalState\<close> whose sequence number is still 0, \<open>n\<close> calls of
  \<open>get_random_priority\<close> return 1, 2, ..., \<open>n\<close> in this order, for every \<open>n\<close>.
\<close>

theorem testing_priorities_count_up:
  assumes "truthy (testing s)"
    and "sequence_number s = 0"
    and "\<not> random_lock s"
  shows "fst (call_n n s) = map Inr [1 .. int n]"
  using call_n_testing [of s n] assms by simp

theorem testing_priorities_count_up_witness:
  "truthy (testing (snd (set_testing (PyBool True) (GlobalState_init (sconst 0))))) \<and>
   sequence_number (snd (set_testing (PyBool True) (GlobalState_init (sconst 0)))) = 0 \<and>
   \<not> random_lock (snd (set_testing (PyBool True) (GlobalState_init (sconst 0)))) \<and>
   fst (call_n 3 (snd (set_testing (PyBool True) (GlobalState_init (sconst 0))))) =
     [Inr 1, Inr 2, Inr 3]"
  using testing_priorities_count_up
    [of "snd (set_testing (PyBool True) (GlobalState_init (sconst 0)))" 3]
  by (simp add: set_testing_def GlobalState_init_def upto_rec1)

text \<open>
  C5. In production mode (the testing flag is false) a call of \<open>get_random_priority\<close>
  returns an integer \<open>r\<close> with \<open>0 \<le> r \<le> 1000\<close>.
\<close>

theorem production_priority_in_range:
  assumes "\<not> truthy (testing s)"
    and "\<not> random_lock s"
  shows "case fst (get_random_priority s) of
           Inl e \<Rightarrow> False
         | Inr r \<Rightarrow> 0 \<le> r \<and> r \<le> 1000"
  using assms
  by (simp add: get_random_priority_def with_lock_def randint_def split: prod.splits)

theorem production_priority_in_range_witness:
  "\<not> truthy (testing (GlobalState_init (sconst 123456))) \<and>
   \<not> random_lock (GlobalState_init (sconst 123456)) \<and>
   fst (get_random_priority (GlobalState_init (sconst 123456))) = Inr 333"
  using production_priority_in_range [of "GlobalState_init (sconst 123456)"]
  by (simp add: get_random_priority_def with_lock_def randint_def GlobalState_init_def)

text \<open>
  C9, as the source has it. \<open>set_testing\<close> has no guard: called again on a configured
  \<open>GlobalState\<close> it switches \<open>get_random_priority\<close> from the counter to the generator.
\<close>

theorem set_testing_switches_mode:
  "truthy (testing (run test_env [SetTesting (PyBool True), GetRandomPriority]
      (GlobalState_init (sconst 5)))) \<and>
   fst (get_random_priority (run test_env [SetTesting (PyBool True), GetRandomPriority]
      (GlobalState_init (sconst 5)))) = Inr 2 \<and>
   \<not> truthy (testing (run test_env
      [SetTesting (PyBool True), GetRandomPriority, SetTesting (PyBool False)]
      (GlobalState_init (sconst 5)))) \<and>
   fst (get_random_priority (run test_env
      [SetTesting (PyBool True), GetRandomPriority, SetTesting (PyBool False)]
      (GlobalState_init (sconst 5)))) = Inr 5"
  by (simp add: set_testing_def get_random_priority_def with_lock_def randint_def
      GlobalState_init_def)

text \<open>
  C9, amended. No operation other than \<open>set_testing\<close> changes the mode: after any operations
  among which \<open>set_testing\<close> does not occur, the testing flag that \<open>get_random_priority\<close>
  branches on is the one of the state they started from.
\<close>

theorem mode_fixed_without_set_testing:
  assumes "\<forall>x\<in>set ops. \<not> is_set_testing x"
  shows "testing (run c ops s) = testing s"
  using assms by (induction ops arbitrary: s) (simp_all add: step_testing)

theorem mode_fixed_without_set_testing_witness:
  "\<not> is_set_testing GetRandomPriority \<and>
   \<not> is_set_testing (SetNumWorkers (PyInt 4)) \<and>
   \<not> is_set_testing (LoggerCall Info [PyStr ''started'']) \<and>
   testing (run test_env
     [GetRandomPriority, SetNumWorkers (PyInt 4), LoggerCall Info [PyStr ''started'']]
     (snd (set_testing (PyBool True) (GlobalState_init (sconst 5))))) = PyBool True"
  using mode_fixed_without_set_testing
    [of "[GetRandomPriority, SetNumWorkers (PyInt 4), LoggerCall Info [PyStr ''started'']]"
        test_env "snd (set_testing (PyBool True) (GlobalState_init (sconst 5)))"]
  by (simp add: set_testing_def)

section \<open>Setters\<close>

text \<open>
  C6, as the source has it. \<open>set_num_workers\<close> checks \<open>types.IntType\<close>: an argument that is
  an integer of type \<open>long\<close>, here \<open>2 ** 63\<close>, ends with \<open>AssertionError\<close> and the worker count
  stays what it was.
\<close>

theorem set_num_workers_rejects_long:
  "isinstance (PyLong (2 ^ 63)) LongType \<and>
   fst (set_num_workers (PyLong (2 ^ 63)) (GlobalState_init (sconst 0))) = Inl AssertionError \<and>
   num_workers (snd (set_num_workers (PyLong (2 ^ 63)) (GlobalState_init (sconst 0)))) = PyInt 0"
  by (simp add: set_num_workers_def GlobalState_init_def)

text \<open>
  C6, amended. \<open>set_relations_to_timestamps\<close> ends with \<open>AssertionError\<close> exactly when its
  argument is not a dict. \<open>set_num_workers\<close> ends with \<open>AssertionError\<close> exactly when its
  argument is not an instance of \<open>types.IntType\<close>, that is, not an \<open>int\<close> (or a \<open>bool\<close>): every
  \<open>long\<close> is rejected, and every \<open>int\<close> and \<open>bool\<close> is stored. When either call ends with
  \<open>AssertionError\<close> the state is the one before the call.
\<close>

theorem setters_assert_type:
  "(fst (set_relations_to_timestamps v s) = Inl AssertionError \<longleftrightarrow> \<not> isinstance v DictType) \<and>
   (\<not> isinstance v DictType \<longrightarrow> snd (set_relations_to_timestamps v s) = s) \<and>
   (fst (set_num_workers w s) = Inl AssertionError \<longleftrightarrow> \<not> isinstance w IntType) \<and>
   (\<not> isinstance w IntType \<longrightarrow> snd (set_num_workers w s) = s) \<and>
   set_num_workers (PyLong n) s = (Inl AssertionError, s) \<and>
   set_num_workers (PyInt i) s = (Inr (), s\<lparr>num_workers := PyInt i\<rparr>) \<and>
   set_num_workers (PyBool b) s = (Inr (), s\<lparr>num_workers := PyBool b\<rparr>)"
  by (simp add: set_relations_to_timestamps_def set_num_workers_def with_lock_def)

theorem setters_assert_type_witness:
  "\<not> isinstance (PyStr ''x'') DictType \<and>
   \<not> isinstance (PyFloat 2) IntType \<and>
   fst (set_relations_to_timestamps (PyStr ''x'') (GlobalState_init (sconst 0))) =
     Inl AssertionError \<and>
   snd (set_relations_to_timestamps (PyStr ''x'') (GlobalState_init (sconst 0))) =
     GlobalState_init (sconst 0) \<and>
   fst (set_num_workers (PyFloat 2) (GlobalState_init (sconst 0))) = Inl AssertionError \<and>
   snd (set_num_workers (PyFloat 2) (GlobalState_init (sconst 0))) =
     GlobalState_init (sconst 0) \<and>
   set_num_workers (PyLong 5) (GlobalState_init (sconst 0)) =
     (Inl AssertionError, GlobalState_init (sconst 0)) \<and>
   num_workers (snd (set_num_workers (PyInt 8) (GlobalState_init (sconst 0)))) = PyInt 8"
  using setters_assert_type
    [of "PyStr ''x''" "GlobalState_init (sconst 0)" "PyFloat 2" 5 8]
  by simp

text \<open>
  C8. For every dict \<open>m\<close>, \<open>set_relations_to_timestamps(m)\<close> succeeds and installs \<open>m\<close> in
  place of the mapping that was there, whatever it was, and \<open>get_relations_to_timestamps()\<close>
  then returns \<open>m\<close>.
\<close>

theorem relations_set_then_get:
  assumes "\<not> relations_lock s"
  shows "fst (set_relations_to_timestamps (PyDict d) s) = Inr () \<and>
         relations_to_timestamps (snd (set_relations_to_timestamps (PyDict d) s)) = PyDict d \<and>
         fst (get_relations_to_timestamps (snd (set_relations_to_timestamps (PyDict d) s))) =
           Inr (PyDict d)"
  using assms
  by (simp add: set_relations_to_timestamps_def get_relations_to_timestamps_def with_lock_def)

theorem relations_set_then_get_witness:
  "\<not> relations_lock
       (snd (set_relations_to_timestamps (PyDict [(PyStr ''old'', PyFloat 1)])
          (GlobalState_init (sconst 0)))) \<and>
   fst (get_relations_to_timestamps
     (snd (set_relations_to_timestamps (PyDict [(PyStr ''new'', PyFloat 2)])
       (snd (set_relations_to_timestamps (PyDict [(PyStr ''old'', PyFloat 1)])
          (GlobalState_init (sconst 0))))))) = Inr (PyDict [(PyStr ''new'', PyFloat 2)])"
proof -
  have free: "\<not> relations_lock
       (snd (set_relations_to_timestamps (PyDict [(PyStr ''old'', PyFloat 1)])
          (GlobalState_init (sconst 0))))"
    by (simp add: set_relations_to_timestamps_def with_lock_def GlobalState_init_def)
  from relations_set_then_get [OF free, of "[(PyStr ''new'', PyFloat 2)]"] free
  show ?thesis by (simp only: simp_thms)
qed

text \<open>
  C10. \<open>add_elapsed\<close> ends with \<open>AssertionError\<close> unless \<open>start_time\<close> is a float,
  \<open>utilities.valid_string\<close> accepts \<open>url_or_fname\<close> and \<open>elapsed_seconds\<close> is a float; when it
  does, the state, and with it the queue, is the one before the call.
\<close>

theorem add_elapsed_asserts:
  "(fst (add_elapsed c tid st u secs s) = Inl AssertionError \<longleftrightarrow>
      \<not> (isinstance st FloatType \<and> valid_string c u \<and> isinstance secs FloatType)) \<and>
   (fst (add_elapsed c tid st u secs s) = Inl AssertionError \<longrightarrow>
      snd (add_elapsed c tid st u secs s) = s)"
  by (simp add: add_elapsed_def)

theorem add_elapsed_asserts_witness:
  "fst (add_elapsed test_env 1 (PyFloat 10) (PyStr []) (PyFloat 1)
      (GlobalState_init (sconst 0))) = Inl AssertionError \<and>
   snd (add_elapsed test_env 1 (PyFloat 10) (PyStr []) (PyFloat 1)
      (GlobalState_init (sconst 0))) = GlobalState_init (sconst 0) \<and>
   fst (add_elapsed test_env 1 (PyInt 10) (PyStr ''a'') (PyFloat 1)
      (GlobalState_init (sconst 0))) = Inl AssertionError \<and>
   fst (add_elapsed test_env 1 (PyFloat 10) (PyStr ''a'') (PyInt 1)
      (GlobalState_init (sconst 0))) = Inl AssertionError \<and>
   fst (add_elapsed test_env 1 (PyFloat 10) (PyStr ''a'') (PyFloat 1)
      (GlobalState_init (sconst 0))) = Inr ()"
  using add_elapsed_asserts [of test_env 1 "PyFloat 10" "PyStr []" "PyFloat 1"
      "GlobalState_init (sconst 0)"]
    add_elapsed_asserts [of test_env 1 "PyInt 10" "PyStr ''a''" "PyFloat 1"
      "GlobalState_init (sconst 0)"]
    add_elapsed_asserts [of test_env 1 "PyFloat 10" "PyStr ''a''" "PyInt 1"
      "GlobalState_init (sconst 0)"]
  by (simp add: test_env_def add_elapsed_def)

section \<open>Logging\<close>

text \<open>
  C7. With a sink installed, each of \<open>logger_debug\<close>, \<open>logger_info\<close>, \<open>logger_warning\<close>,
  \<open>logger_error\<close>, \<open>logger_fatal\<close> and \<open>logger_exception\<close> passes its arguments to the sink's
  method of that level as they are; an exception that the sink raises is the exception the
  call ends with; and the logger lock is free after the call, whether the sink raised or
  returned.
\<close>

theorem facade_propagates_and_releases:
  assumes "logger s = Some lg"
    and "\<not> logger_lock s"
  shows "fst (facade lvl args s) =
           (case raises lg lvl args of Some e \<Rightarrow> Inl (Raised e) | None \<Rightarrow> Inr ()) \<and>
         \<not> logger_lock (snd (facade lvl args s)) \<and>
         logger (snd (facade lvl args s)) = Some (lg\<lparr>calls := calls lg @ [(lvl, args)]\<rparr>)"
  using assms
  by (simp add: facade_with_lock with_lock_def sink_call_def)

theorem facade_propagates_and_releases_witness:
  "logger (snd (set_logger (Some failing_sink) (GlobalState_init (sconst 0)))) =
     Some failing_sink \<and>
   \<not> logger_lock (snd (set_logger (Some failing_sink) (GlobalState_init (sconst 0)))) \<and>
   fst (logger_error [PyStr ''msg'', PyInt 3]
     (snd (set_logger (Some failing_sink) (GlobalState_init (sconst 0))))) =
     Inl (Raised (PyStr ''sink failed'')) \<and>
   \<not> logger_lock (snd (logger_error [PyStr ''msg'', PyInt 3]
     (snd (set_logger (Some failing_sink) (GlobalState_init (sconst 0)))))) \<and>
   logger (snd (logger_error [PyStr ''msg'', PyInt 3]
     (snd (set_logger (Some failing_sink) (GlobalState_init (sconst 0)))))) =
     Some (failing_sink\<lparr>calls := [(Error, [PyStr ''msg'', PyInt 3])]\<rparr>) \<and>
   fst (logger_info [PyStr ''msg'']
     (snd (set_logger (Some quiet_sink) (GlobalState_init (sconst 0))))) = Inr () \<and>
   \<not> logger_lock (snd (logger_info [PyStr ''msg'']
     (snd (set_logger (Some quiet_sink) (GlobalState_init (sconst 0))))))"
proof -
  have installed: "logger (snd (set_logger (Some failing_sink) (GlobalState_init (sconst 0)))) =
     Some failing_sink"
    by (simp add: set_logger_def with_lock_def GlobalState_init_def)
  have free: "\<not> logger_lock (snd (set_logger (Some failing_sink) (GlobalState_init (sconst 0))))"
    by (simp add: set_logger_def with_lock_def GlobalState_init_def)
  have installed': "logger (snd (set_logger (Some quiet_sink) (GlobalState_init (sconst 0)))) =
     Some quiet_sink"
    by (simp add: set_logger_def with_lock_def GlobalState_init_def)
  have free': "\<not> logger_lock (snd (set_logger (Some quiet_sink) (GlobalState_init (sconst 0))))"
    by (simp add: set_logger_def with_lock_def GlobalState_init_def)
  have "raises failing_sink Error [PyStr ''msg'', PyInt 3] = Some (PyStr ''sink failed'')"
    and "calls failing_sink = []"
    and "raises quiet_sink Info [PyStr ''msg''] = None"
    by (simp_all add: failing_sink_def quiet_sink_def)
  with facade_propagates_and_releases [OF installed free, of Error "[PyStr ''msg'', PyInt 3]"]
    facade_propagates_and_releases [OF installed' free', of Info "[PyStr ''msg'']"]
    installed free
  show ?thesis by simp
qed

end
